theory Spec2Isabelle
  imports Main "HOL-Library.Multiset"
begin

section \<open>JavaScript values used by the email service\<close>

text \<open>
  The embedding follows \<^verbatim>\<open>class EmailService\<close> (services/emailService.js).
  A JavaScript string is a \<^typ>\<open>string\<close>; one \<^typ>\<open>char\<close> stands for one code unit
  in the range 0..255. An optional property (\<^verbatim>\<open>undefined\<close> when absent) is an
  \<^typ>\<open>'a option\<close>. A thrown \<^verbatim>\<open>Error\<close> is a value of \<open>js_error\<close>, and a function
  that may throw returns \<open>js_error + 'a\<close> with \<open>Inl\<close> for the throw.
\<close>

record js_error =
  code :: "string option"
  message :: string

definition Error :: "string \<Rightarrow> js_error" where
  "Error msg = \<lparr>code = None, message = msg\<rparr>"

text \<open>Truthiness of an optional string: \<^verbatim>\<open>undefined\<close> and \<^verbatim>\<open>''\<close> are falsy.\<close>

fun truthy :: "string option \<Rightarrow> bool" where
  "truthy None = False"
| "truthy (Some s) = (s \<noteq> [])"

text \<open>\<^verbatim>\<open>a || b\<close> on an optional string and a string default.\<close>

fun or_else :: "string option \<Rightarrow> string \<Rightarrow> string" where
  "or_else None d = d"
| "or_else (Some s) d = (if s = [] then d else s)"

subsection \<open>String operations\<close>

definition lowerChar :: "char \<Rightarrow> char" where
  "lowerChar c =
     (let n = (of_char c :: nat)
      in if (65 \<le> n \<and> n \<le> 90) \<or> (192 \<le> n \<and> n \<le> 222 \<and> n \<noteq> 215)
         then char_of (n + 32) else c)"

definition toLowerCase :: "string \<Rightarrow> string" where
  "toLowerCase s = map lowerChar s"

definition startsWith :: "string \<Rightarrow> string \<Rightarrow> bool" where
  "startsWith s p = (take (length p) s = p)"

text \<open>\<^verbatim>\<open>s.includes(p)\<close>: \<open>p\<close> occurs in \<open>s\<close> as a contiguous substring.\<close>

fun js_includes :: "string \<Rightarrow> string \<Rightarrow> bool" where
  "js_includes [] p = (p = [])"
| "js_includes (c # cs) p = (startsWith (c # cs) p \<or> js_includes cs p)"

subsection \<open>Regular expressions\<close>

text \<open>
  \<^verbatim>\<open>isValidEmail\<close> tests the anchored pattern
  \<^verbatim>\<open>/^[^\s@]+@[^\s@]+\.[^\s@]+$/\<close>. The pattern is kept as a term of \<open>regex\<close> and
  matched by derivatives; for an anchored pattern without captures, \<^verbatim>\<open>test\<close> is
  membership of the whole string in the pattern's language.
\<close>

datatype regex =
    Fail
  | Eps
  | Cls "char \<Rightarrow> bool"
  | Alt regex regex
  | Seq regex regex
  | Star regex

definition Plus :: "regex \<Rightarrow> regex" where
  "Plus r = Seq r (Star r)"

fun nullable :: "regex \<Rightarrow> bool" where
  "nullable Fail = False"
| "nullable Eps = True"
| "nullable (Cls P) = False"
| "nullable (Alt r s) = (nullable r \<or> nullable s)"
| "nullable (Seq r s) = (nullable r \<and> nullable s)"
| "nullable (Star r) = True"

fun deriv :: "char \<Rightarrow> regex \<Rightarrow> regex" where
  "deriv c Fail = Fail"
| "deriv c Eps = Fail"
| "deriv c (Cls P) = (if P c then Eps else Fail)"
| "deriv c (Alt r s) = Alt (deriv c r) (deriv c s)"
| "deriv c (Seq r s) =
     (if nullable r then Alt (Seq (deriv c r) s) (deriv c s) else Seq (deriv c r) s)"
| "deriv c (Star r) = Seq (deriv c r) (Star r)"

fun regex_test :: "regex \<Rightarrow> string \<Rightarrow> bool" where
  "regex_test r [] = nullable r"
| "regex_test r (c # cs) = regex_test (deriv c r) cs"

text \<open>
  \<^verbatim>\<open>\s\<close> restricted to code units below 256: tab, line feed, vertical tab, form feed,
  carriage return, space and no-break space.
\<close>

definition isWhiteSpace :: "char \<Rightarrow> bool" where
  "isWhiteSpace c = ((of_char c :: nat) \<in> {9, 10, 11, 12, 13, 32, 160})"

definition notSpaceAt :: "char \<Rightarrow> bool" where
  "notSpaceAt c = (\<not> isWhiteSpace c \<and> c \<noteq> CHR ''@'')"

definition emailRegex :: regex where
  "emailRegex =
     Seq (Plus (Cls notSpaceAt))
       (Seq (Cls (\<lambda>c. c = CHR ''@''))
         (Seq (Plus (Cls notSpaceAt))
           (Seq (Cls (\<lambda>c. c = CHR ''.''))
             (Plus (Cls notSpaceAt)))))"

definition isValidEmail :: "string \<Rightarrow> bool" where
  "isValidEmail email = regex_test emailRegex email"

section \<open>Messages and validation\<close>

text \<open>
  \<^verbatim>\<open>emailData.to\<close> is a single address or an array of addresses.
  The fields of \<open>emailData\<close> are \<^verbatim>\<open>to, subject, text, html, from, replyTo, attachments\<close>.
\<close>

datatype recipient = Single string | Many "string list"

record emailData =
  to_addr :: "recipient option"
  subject :: "string option"
  text_body :: "string option"
  html_body :: "string option"
  from_addr :: "string option"
  replyTo :: "string option"
  attachments :: "string list option"

text \<open>\<^verbatim>\<open>!emailData.to\<close>: an array, even an empty one, is truthy.\<close>

fun to_truthy :: "recipient option \<Rightarrow> bool" where
  "to_truthy None = False"
| "to_truthy (Some (Single a)) = (a \<noteq> [])"
| "to_truthy (Some (Many as)) = True"

text \<open>\<^verbatim>\<open>Array.isArray(emailData.to) ? emailData.to : [emailData.to]\<close>, once \<^verbatim>\<open>to\<close> is truthy.\<close>

fun recipients :: "recipient option \<Rightarrow> string list" where
  "recipients None = []"
| "recipients (Some (Single a)) = [a]"
| "recipients (Some (Many as)) = as"

text \<open>\<open>None\<close>: the function returns; \<open>Some e\<close>: it throws \<open>e\<close>.\<close>

definition validateEmailData :: "emailData \<Rightarrow> js_error option" where
  "validateEmailData emailData =
     (if \<not> to_truthy (to_addr emailData) then Some (Error ''Recipient email is required'')
      else if \<not> truthy (subject emailData) then Some (Error ''Email subject is required'')
      else if \<not> truthy (text_body emailData) \<and> \<not> truthy (html_body emailData)
        then Some (Error ''Email content (text or html) is required'')
      else case find (\<lambda>email. \<not> isValidEmail email) (recipients (to_addr emailData)) of
          Some email \<Rightarrow> Some (Error (''Invalid recipient email: '' @ email))
        | None \<Rightarrow>
            (case from_addr emailData of
               Some f \<Rightarrow>
                 if f \<noteq> [] \<and> \<not> isValidEmail f
                 then Some (Error (''Invalid sender email: '' @ f)) else None
             | None \<Rightarrow> None))"

section \<open>The mailer's state and its environment\<close>

text \<open>One entry of \<^verbatim>\<open>config.email.providers\<close>.\<close>

record provider =
  p_name :: string
  host :: "string option"
  port :: nat
  secure :: bool
  auth_user :: "string option"
  auth_pass :: "string option"

text \<open>
  One element of \<^verbatim>\<open>this.transporters\<close>. The nodemailer transport object is
  represented by the provider it was created from; its behaviour is given by the
  environment, addressed by the channel's position in \<^verbatim>\<open>this.transporters\<close>.
\<close>

record transporterInfo =
  transporter :: provider
  name :: string
  isHealthy :: bool
  lastError :: "string option"
  emailsSent :: nat

record service =
  transporters :: "transporterInfo list"
  isInitialized :: bool

text \<open>The argument of \<^verbatim>\<open>transporter.sendMail\<close> built by \<^verbatim>\<open>sendWithTransporter\<close>.\<close>

record mailOptions =
  mo_from :: "string option"
  mo_to :: "recipient option"
  mo_subject :: "string option"
  mo_text :: "string option"
  mo_html :: "string option"
  mo_replyTo :: "string option"
  mo_attachments :: "string list"
  mo_headers :: "(string \<times> string) list"

record sendInfo =
  info_messageId :: string
  info_response :: string

text \<open>
  What lies outside the service during one call: the configuration, the nodemailer
  module, and the outcome of each transport operation.

  The nodemailer package is not part of the repository, so the outcome of the call
  \<^verbatim>\<open>nodemailer.createTransporter(options)\<close> is a parameter:
  \<open>createTransporter env p\<close> is \<open>None\<close> when the call made for provider \<open>p\<close>
  returns a transport and \<open>Some e\<close> when it throws \<open>e\<close>. The mock of the unit tests
  returns a transport. The nodemailer package exports \<^verbatim>\<open>createTransport\<close> and no
  \<^verbatim>\<open>createTransporter\<close>, so with the package itself the call throws a
  \<^verbatim>\<open>TypeError\<close>.

  \<open>verify env i\<close> is the outcome of \<^verbatim>\<open>transporter.verify()\<close> on channel \<open>i\<close>
  (\<open>None\<close>: resolved, \<open>Some e\<close>: rejected with \<open>e\<close>); \<open>sendMail env i opts\<close> is
  the outcome of \<^verbatim>\<open>transporter.sendMail(opts)\<close> on channel \<open>i\<close>. Every transport
  promise settles.
\<close>

record env =
  providers :: "provider list"
  createTransporter :: "provider \<Rightarrow> js_error option"
  verify :: "nat \<Rightarrow> js_error option"
  sendMail :: "nat \<Rightarrow> mailOptions \<Rightarrow> js_error + sendInfo"

text \<open>The network operations a call issues, in order.\<close>

datatype net_call = Verify nat | SendMail nat

section \<open>initialize\<close>

definition complete :: "provider \<Rightarrow> bool" where
  "complete p = (truthy (host p) \<and> truthy (auth_user p) \<and> truthy (auth_pass p))"

text \<open>
  The loop over \<^verbatim>\<open>config.email.providers\<close>: the accumulator is
  \<^verbatim>\<open>this.transporters\<close>, the last component the handshakes issued so far. The first
  component is the error that ends the loop when \<^verbatim>\<open>nodemailer.createTransporter\<close>
  throws; a rejected handshake is caught inside the loop and does not end it.
\<close>

fun initLoop ::
  "env \<Rightarrow> provider list \<Rightarrow> transporterInfo list \<Rightarrow> net_call list
    \<Rightarrow> js_error option \<times> transporterInfo list \<times> net_call list" where
  "initLoop env [] ts calls = (None, ts, calls)"
| "initLoop env (p # ps) ts calls =
     (if complete p then
        (case createTransporter env p of
           Some error \<Rightarrow> (Some error, ts, calls)
         | None \<Rightarrow>
             (case verify env (length ts) of
                None \<Rightarrow>
                  initLoop env ps
                    (ts @ [\<lparr>transporter = p, name = p_name p, isHealthy = True,
                            lastError = None, emailsSent = 0\<rparr>])
                    (calls @ [Verify (length ts)])
              | Some verifyError \<Rightarrow>
                  initLoop env ps
                    (ts @ [\<lparr>transporter = p, name = p_name p, isHealthy = False,
                            lastError = Some (message verifyError), emailsSent = 0\<rparr>])
                    (calls @ [Verify (length ts)])))
      else initLoop env ps ts calls)"

text \<open>
  The outer \<^verbatim>\<open>catch\<close> logs and rethrows: an error of the loop and the error for an
  empty channel list both leave \<^verbatim>\<open>isInitialized\<close> false.
\<close>

definition initialize ::
  "env \<Rightarrow> service \<Rightarrow> (js_error + unit) \<times> service \<times> net_call list" where
  "initialize env s =
     (if isInitialized s then (Inr (), s, [])
      else
        (case initLoop env (providers env) [] [] of
           (Some error, ts, calls) \<Rightarrow> (Inl error, s\<lparr>transporters := ts\<rparr>, calls)
         | (None, ts, calls) \<Rightarrow>
             if length ts = 0
             then (Inl (Error ''No email providers configured''), s\<lparr>transporters := ts\<rparr>, calls)
             else (Inr (), s\<lparr>transporters := ts, isInitialized := True\<rparr>, calls)))"

section \<open>sendEmail\<close>

definition isPersistentError :: "js_error \<Rightarrow> bool" where
  "isPersistentError error =
     (code error \<in> Some ` set [''EAUTH'', ''EENVELOPE'', ''EMESSAGE''] \<or>
      list_ex (\<lambda>msg. js_includes (toLowerCase (message error)) (toLowerCase msg))
        [''Invalid login'', ''Authentication failed'',
         ''Username and Password not accepted'', ''Invalid credentials''])"

definition sendWithTransporter :: "env \<Rightarrow> nat \<Rightarrow> emailData \<Rightarrow> js_error + sendInfo" where
  "sendWithTransporter env i emailData =
     sendMail env i
       \<lparr>mo_from = from_addr emailData, mo_to = to_addr emailData,
        mo_subject = subject emailData, mo_text = text_body emailData,
        mo_html = html_body emailData, mo_replyTo = replyTo emailData,
        mo_attachments = (case attachments emailData of None \<Rightarrow> [] | Some as \<Rightarrow> as),
        mo_headers = [(''X-Mailer'', ''Cold Outreach Platform''), (''X-Priority'', ''3'')]\<rparr>"

record sendResult =
  success :: bool
  messageId :: string
  provider_used :: string
  response :: string

text \<open>The mutation in the \<^verbatim>\<open>catch\<close> block of the send loop.\<close>

definition markFailure :: "js_error \<Rightarrow> transporterInfo \<Rightarrow> transporterInfo" where
  "markFailure error t =
     (if isPersistentError error
      then t\<lparr>isHealthy := False, lastError := Some (message error)\<rparr> else t)"

text \<open>\<^verbatim>\<open>lastError?.message\<close> inside a template literal.\<close>

fun lastErrorMessage :: "js_error option \<Rightarrow> string" where
  "lastErrorMessage None = ''undefined''"
| "lastErrorMessage (Some e) = message e"

text \<open>
  The loop over \<^verbatim>\<open>healthyTransporters\<close>. The filtered array holds references to the
  objects of \<^verbatim>\<open>this.transporters\<close>, so it is a list of positions and a mutation is an
  update at that position.
\<close>

fun sendLoop ::
  "env \<Rightarrow> emailData \<Rightarrow> nat list \<Rightarrow> transporterInfo list \<Rightarrow> js_error option \<Rightarrow> net_call list
    \<Rightarrow> (js_error + sendResult) \<times> transporterInfo list \<times> net_call list" where
  "sendLoop env emailData [] ts lastErr calls =
     (Inl (Error (''Failed to send email with all providers. Last error: '' @
                  lastErrorMessage lastErr)), ts, calls)"
| "sendLoop env emailData (i # rest) ts lastErr calls =
     (case sendWithTransporter env i emailData of
        Inr result \<Rightarrow>
          (Inr \<lparr>success = True, messageId = info_messageId result,
                provider_used = name (ts ! i), response = info_response result\<rparr>,
           ts[i := (ts ! i)\<lparr>emailsSent := emailsSent (ts ! i) + 1\<rparr>],
           calls @ [SendMail i])
      | Inl error \<Rightarrow>
          sendLoop env emailData rest (ts[i := markFailure error (ts ! i)]) (Some error)
            (calls @ [SendMail i]))"

definition healthyTransporters :: "transporterInfo list \<Rightarrow> nat list" where
  "healthyTransporters ts = filter (\<lambda>i. isHealthy (ts ! i)) [0..<length ts]"

definition sendEmail ::
  "env \<Rightarrow> service \<Rightarrow> emailData \<Rightarrow> (js_error + sendResult) \<times> service \<times> net_call list" where
  "sendEmail env s emailData =
     (case initialize env s of
        (Inl e, s1, calls) \<Rightarrow> (Inl e, s1, calls)
      | (Inr _, s1, calls) \<Rightarrow>
          (case validateEmailData emailData of
             Some e \<Rightarrow> (Inl e, s1, calls)
           | None \<Rightarrow>
               (if length (healthyTransporters (transporters s1)) = 0
                then (Inl (Error ''No healthy email providers available''), s1, calls)
                else
                  (case sendLoop env emailData (healthyTransporters (transporters s1))
                          (transporters s1) None calls of
                     (r, ts, calls') \<Rightarrow> (r, s1\<lparr>transporters := ts\<rparr>, calls')))))"

section \<open>healthCheck and getStats\<close>

record providerStatus =
  h_name :: string
  h_isHealthy :: bool
  h_lastError :: "string option"
  h_emailsSent :: nat

record healthReport =
  overall :: bool
  h_providers :: "providerStatus list"

text \<open>
  The loop over \<^verbatim>\<open>this.transporters\<close>, by position; \<open>status\<close> is
  \<^verbatim>\<open>healthStatus\<close>. An entry pushed after a successful handshake has no
  \<^verbatim>\<open>lastError\<close> property.
\<close>

fun healthLoop ::
  "env \<Rightarrow> nat list \<Rightarrow> transporterInfo list \<Rightarrow> providerStatus list \<Rightarrow> net_call list
    \<Rightarrow> transporterInfo list \<times> providerStatus list \<times> net_call list" where
  "healthLoop env [] ts status calls = (ts, status, calls)"
| "healthLoop env (i # rest) ts status calls =
     (case verify env i of
        None \<Rightarrow>
          healthLoop env rest
            (ts[i := (ts ! i)\<lparr>isHealthy := True, lastError := None\<rparr>])
            (status @ [\<lparr>h_name = name (ts ! i), h_isHealthy = True, h_lastError = None,
                        h_emailsSent = emailsSent (ts ! i)\<rparr>])
            (calls @ [Verify i])
      | Some error \<Rightarrow>
          healthLoop env rest
            (ts[i := (ts ! i)\<lparr>isHealthy := False, lastError := Some (message error)\<rparr>])
            (status @ [\<lparr>h_name = name (ts ! i), h_isHealthy = False,
                        h_lastError = Some (message error),
                        h_emailsSent = emailsSent (ts ! i)\<rparr>])
            (calls @ [Verify i]))"

definition healthCheck :: "env \<Rightarrow> service \<Rightarrow> healthReport \<times> service \<times> net_call list" where
  "healthCheck env s =
     (case healthLoop env [0..<length (transporters s)] (transporters s) [] [] of
        (ts, status, calls) \<Rightarrow>
          (\<lparr>overall = list_ex h_isHealthy status, h_providers = status\<rparr>,
           s\<lparr>transporters := ts\<rparr>, calls))"

record providerStats =
  st_name :: string
  st_isHealthy :: bool
  st_emailsSent :: nat
  st_lastError :: "string option"

record stats =
  st_providers :: "providerStats list"
  totalProviders :: nat
  healthyProviders :: nat

definition getStats :: "service \<Rightarrow> stats" where
  "getStats s =
     \<lparr>st_providers =
        map (\<lambda>t. \<lparr>st_name = name t, st_isHealthy = isHealthy t,
                   st_emailsSent = emailsSent t, st_lastError = lastError t\<rparr>)
          (transporters s),
      totalProviders = length (transporters s),
      healthyProviders = length (filter isHealthy (transporters s))\<rparr>"

section \<open>sendBulkEmails\<close>


record sentEntry =
  s_index :: nat
  s_email :: "recipient option"
  s_result :: sendResult

record failedEntry =
  f_index :: nat
  f_email :: "recipient option"
  f_error :: string

record bulkResults =
  sent :: "sentEntry list"
  failed :: "failedEntry list"
  total :: nat








section \<open>createPersonalizedEmail\<close>

record prospect =
  firstName :: "string option"
  lastName :: "string option"
  fullName :: "string option"
  company :: "string option"
  jobTitle :: "string option"
  location :: "string option"

record campaignData =
  c_name :: "string option"
  senderName :: "string option"
  senderEmail :: "string option"

record template =
  t_subject :: string
  t_content :: string
  t_htmlContent :: "string option"

record personalized =
  p_subject :: string
  p_text :: string
  p_html :: "string option"

definition variables :: "prospect \<Rightarrow> campaignData \<Rightarrow> (string \<times> string) list" where
  "variables prospect campaignData =
     [(''firstName'', or_else (firstName prospect) ''there''),
      (''lastName'', or_else (lastName prospect) []),
      (''fullName'', or_else (fullName prospect) (or_else (firstName prospect) ''there'')),
      (''company'', or_else (company prospect) ''your company''),
      (''jobTitle'', or_else (jobTitle prospect) ''your role''),
      (''location'', or_else (location prospect) []),
      (''campaignName'', or_else (c_name campaignData) []),
      (''senderName'', or_else (senderName campaignData) []),
      (''senderEmail'', or_else (senderEmail campaignData) [])]"

text \<open>
  \<^verbatim>\<open>new RegExp(`{{${key}}}`, 'gi')\<close>: the braces do not form a quantifier, so the
  pattern is the literal text \<^verbatim>\<open>{{key}}\<close>, compared without regard to case. The
  \<^verbatim>\<open>i\<close> flag compares canonical (upper-case) code units.
\<close>

definition canonicalize :: "char \<Rightarrow> char" where
  "canonicalize c =
     (let n = (of_char c :: nat)
      in if (97 \<le> n \<and> n \<le> 122) \<or> (224 \<le> n \<and> n \<le> 254 \<and> n \<noteq> 247)
         then char_of (n - 32) else c)"

definition placeholder :: "string \<Rightarrow> string" where
  "placeholder key = ''{{'' @ key @ ''}}''"

definition matchesAt :: "string \<Rightarrow> string \<Rightarrow> bool" where
  "matchesAt pattern s =
     (length pattern \<le> length s \<and>
      map canonicalize (take (length pattern) s) = map canonicalize pattern)"

text \<open>
  The replacement argument of \<^verbatim>\<open>String.prototype.replace\<close> is a string, so each match
  is replaced by its expansion: \<^verbatim>\<open>$$\<close> is a dollar sign, \<^verbatim>\<open>$&\<close> the matched
  text, \<^verbatim>\<open>$`\<close> the text before the match and \<^verbatim>\<open>$'\<close> the text after it. The
  pattern has no capture group, so any other \<^verbatim>\<open>$\<close> stands for itself.
\<close>

fun getSubstitution :: "string \<Rightarrow> string \<Rightarrow> string \<Rightarrow> string \<Rightarrow> string" where
  "getSubstitution matched pre post [] = []"
| "getSubstitution matched pre post [c] = [c]"
| "getSubstitution matched pre post (c # d # rest) =
     (if c = CHR ''$'' \<and> d = CHR ''$'' then CHR ''$'' # getSubstitution matched pre post rest
      else if c = CHR ''$'' \<and> d = CHR ''&'' then matched @ getSubstitution matched pre post rest
      else if c = CHR ''$'' \<and> d = CHR 0x60 then pre @ getSubstitution matched pre post rest
      else if c = CHR ''$'' \<and> d = CHR 0x27 then post @ getSubstitution matched pre post rest
      else c # getSubstitution matched pre post (d # rest))"

text \<open>
  The global replace: \<open>seen\<close> is the part of the subject string left of the current
  position, \<open>rest\<close> the part from it on. After a match the search resumes behind it.
\<close>

function replaceLoop :: "string \<Rightarrow> string \<Rightarrow> string \<Rightarrow> string \<Rightarrow> string" where
  "replaceLoop key replacement seen rest =
     (if rest = [] then []
      else if matchesAt (placeholder key) rest then
        (let n = length (placeholder key)
         in getSubstitution (take n rest) seen (drop n rest) replacement @
            replaceLoop key replacement (seen @ take n rest) (drop n rest))
      else hd rest # replaceLoop key replacement (seen @ [hd rest]) (tl rest))"
  by pat_completeness auto
termination
  by (relation "measure (\<lambda>(key, replacement, seen, rest). length rest)")
    (auto simp: placeholder_def)

declare replaceLoop.simps [simp del]

definition replace :: "string \<Rightarrow> string \<Rightarrow> string \<Rightarrow> string" where
  "replace s key replacement = replaceLoop key replacement [] s"

text \<open>One round of the \<^verbatim>\<open>forEach\<close> over \<^verbatim>\<open>Object.entries(variables)\<close>.\<close>

fun personalize ::
  "string \<times> string \<times> string option \<Rightarrow> string \<times> string \<Rightarrow> string \<times> string \<times> string option" where
  "personalize (personalizedSubject, personalizedContent, personalizedHtml) (key, v) =
     (replace personalizedSubject key v,
      replace personalizedContent key v,
      (if truthy personalizedHtml
       then map_option (\<lambda>h. replace h key v) personalizedHtml
       else personalizedHtml))"

definition createPersonalizedEmail :: "template \<Rightarrow> prospect \<Rightarrow> campaignData \<Rightarrow> personalized" where
  "createPersonalizedEmail template prospect campaignData =
     (case foldl personalize (t_subject template, t_content template, t_htmlContent template)
             (variables prospect campaignData) of
        (personalizedSubject, personalizedContent, personalizedHtml) \<Rightarrow>
          \<lparr>p_subject = personalizedSubject, p_text = personalizedContent,
           p_html = personalizedHtml\<rparr>)"

section \<open>Auxiliary definitions\<close>

text \<open>
  The channel that \<^verbatim>\<open>initialize\<close> pushes for provider \<open>p\<close> when it becomes
  channel \<open>i\<close>, in both branches of the handshake.
\<close>

definition channelFor :: "env \<Rightarrow> nat \<Rightarrow> provider \<Rightarrow> transporterInfo" where
  "channelFor env i p =
     \<lparr>transporter = p, name = p_name p, isHealthy = (verify env i = None),
      lastError = map_option message (verify env i), emailsSent = 0\<rparr>"

text \<open>
  The positions the send loop tries, given the list it iterates: all up to and
  including the first one whose send resolves.
\<close>

fun attempts :: "env \<Rightarrow> emailData \<Rightarrow> nat list \<Rightarrow> nat list" where
  "attempts env m [] = []"
| "attempts env m (i # rest) =
     (case sendWithTransporter env i m of Inr r \<Rightarrow> [i] | Inl e \<Rightarrow> i # attempts env m rest)"

text \<open>
  The three persistent categories by name. An authentication failure is an error
  carrying nodemailer's code \<^verbatim>\<open>EAUTH\<close> or one of the login phrases in its message;
  the other two are the codes \<^verbatim>\<open>EENVELOPE\<close> and \<^verbatim>\<open>EMESSAGE\<close>.
\<close>

definition authenticationFailure :: "js_error \<Rightarrow> bool" where
  "authenticationFailure e =
     (code e = Some ''EAUTH'' \<or>
      (\<exists>msg\<in>set [''Invalid login'', ''Authentication failed'',
                  ''Username and Password not accepted'', ''Invalid credentials''].
         js_includes (toLowerCase (message e)) (toLowerCase msg)))"

definition malformedEnvelope :: "js_error \<Rightarrow> bool" where
  "malformedEnvelope e = (code e = Some ''EENVELOPE'')"

definition malformedMessage :: "js_error \<Rightarrow> bool" where
  "malformedMessage e = (code e = Some ''EMESSAGE'')"

subsection \<open>Example data\<close>

text \<open>The configuration and the message of the unit tests, with three providers.\<close>

definition demo_provider :: "string \<Rightarrow> provider" where
  "demo_provider n =
     \<lparr>p_name = n, host = Some ''smtp.test.com'', port = 587, secure = False,
      auth_user = Some ''test@test.com'', auth_pass = Some ''testpass''\<rparr>"

definition demo_channel :: "string \<Rightarrow> transporterInfo" where
  "demo_channel n =
     \<lparr>transporter = demo_provider n, name = n, isHealthy = True, lastError = None,
      emailsSent = 0\<rparr>"

definition demo_mailer :: service where
  "demo_mailer =
     \<lparr>transporters = [demo_channel ''primary'', demo_channel ''secondary'',
                      demo_channel ''tertiary''],
      isInitialized = True\<rparr>"

definition fresh_mailer :: service where
  "fresh_mailer = \<lparr>transporters = [], isInitialized = False\<rparr>"

definition down_mailer :: service where
  "down_mailer =
     \<lparr>transporters =
        [(demo_channel ''primary'')\<lparr>isHealthy := False, lastError := Some ''Invalid login''\<rparr>],
      isInitialized = True\<rparr>"

definition demo_message :: emailData where
  "demo_message =
     \<lparr>to_addr = Some (Single ''recipient@test.com''), subject = Some ''Test Subject'',
      text_body = Some ''Test content'', html_body = None,
      from_addr = Some ''sender@test.com'', replyTo = None, attachments = None\<rparr>"

definition auth_error :: js_error where
  "auth_error = \<lparr>code = Some ''EAUTH'', message = ''Invalid login''\<rparr>"

definition timeout_error :: js_error where
  "timeout_error = \<lparr>code = Some ''ETIMEDOUT'', message = ''Connection timeout''\<rparr>"

definition demo_info :: sendInfo where
  "demo_info = \<lparr>info_messageId = ''test-message-id'', info_response = ''Email sent successfully''\<rparr>"

text \<open>The first channel rejects the login, the others deliver.\<close>

definition demo_env :: env where
  "demo_env =
     \<lparr>providers = [demo_provider ''primary'', demo_provider ''secondary'',
                   demo_provider ''tertiary''],
      createTransporter = (\<lambda>p. None),
      verify = (\<lambda>i. None),
      sendMail = (\<lambda>i opts. if i = 0 then Inl auth_error else Inr demo_info)\<rparr>"

text \<open>The first channel rejects the login, the others time out.\<close>

definition failing_env :: env where
  "failing_env =
     \<lparr>providers = [demo_provider ''primary'', demo_provider ''secondary'',
                   demo_provider ''tertiary''],
      createTransporter = (\<lambda>p. None),
      verify = (\<lambda>i. if i = 1 then Some timeout_error else None),
      sendMail = (\<lambda>i opts. if i = 0 then Inl auth_error else Inl timeout_error)\<rparr>"

text \<open>The second provider lacks a password; the handshake of channel 1 times out.\<close>

definition partial_env :: env where
  "partial_env =
     \<lparr>providers = [demo_provider ''primary'',
                   (demo_provider ''secondary'')\<lparr>auth_pass := None\<rparr>,
                   demo_provider ''tertiary''],
      createTransporter = (\<lambda>p. None),
      verify = (\<lambda>i. if i = 1 then Some timeout_error else None),
      sendMail = (\<lambda>i opts. Inr demo_info)\<rparr>"

text \<open>
  The error of calling a property that is not a function, and the environment with the
  nodemailer package itself in place of the mock.
\<close>

definition createTransporter_TypeError :: js_error where
  "createTransporter_TypeError =
     \<lparr>code = None, message = ''nodemailer.createTransporter is not a function''\<rparr>"

definition package_env :: env where
  "package_env =
     \<lparr>providers = [demo_provider ''primary'', demo_provider ''secondary'',
                   demo_provider ''tertiary''],
      createTransporter = (\<lambda>p. Some createTransporter_TypeError),
      verify = (\<lambda>i. None),
      sendMail = (\<lambda>i opts. Inr demo_info)\<rparr>"


text \<open>An empty recipient array with a malformed sender.\<close>

definition bad_sender_message :: emailData where
  "bad_sender_message =
     \<lparr>to_addr = Some (Many []), subject = Some ''Test Subject'',
      text_body = Some ''Test content'', html_body = None,
      from_addr = Some ''not-an-address'', replyTo = None, attachments = None\<rparr>"


text \<open>A mailer whose first channel was marked unhealthy and whose second has sent mail.\<close>

definition mixed_mailer :: service where
  "mixed_mailer =
     \<lparr>transporters =
        [(demo_channel ''primary'')\<lparr>isHealthy := False, lastError := Some ''Invalid login''\<rparr>,
         (demo_channel ''secondary'')\<lparr>emailsSent := 7\<rparr>],
      isInitialized = True\<rparr>"

text \<open>The effect of one round of the health check on a channel, and the entry it pushes.\<close>

definition checked :: "env \<Rightarrow> nat \<Rightarrow> transporterInfo \<Rightarrow> transporterInfo" where
  "checked env i t =
     (case verify env i of
        None \<Rightarrow> t\<lparr>isHealthy := True, lastError := None\<rparr>
      | Some error \<Rightarrow> t\<lparr>isHealthy := False, lastError := Some (message error)\<rparr>)"

definition statusOf :: "env \<Rightarrow> nat \<Rightarrow> transporterInfo \<Rightarrow> providerStatus" where
  "statusOf env i t =
     (case verify env i of
        None \<Rightarrow>
          \<lparr>h_name = name t, h_isHealthy = True, h_lastError = None,
           h_emailsSent = emailsSent t\<rparr>
      | Some error \<Rightarrow>
          \<lparr>h_name = name t, h_isHealthy = False, h_lastError = Some (message error),
           h_emailsSent = emailsSent t\<rparr>)"





text \<open>The template of the unit tests, and a prospect and a campaign without any value.\<close>

definition no_prospect :: prospect where
  "no_prospect =
     \<lparr>firstName = None, lastName = None, fullName = None, company = None,
      jobTitle = None, location = None\<rparr>"

definition no_campaign :: campaignData where
  "no_campaign = \<lparr>c_name = None, senderName = None, senderEmail = None\<rparr>"

definition hello_template :: template where
  "hello_template =
     \<lparr>t_subject = ''Hello {{firstName}}'', t_content = ''Hi {{firstName}} from {{company}}'',
      t_htmlContent = None\<rparr>"

section \<open>Properties of initialize\<close>

lemma initLoop_step:
  "complete p \<Longrightarrow> createTransporter env p = None \<Longrightarrow>
   initLoop env (p # ps) ts calls =
     initLoop env ps (ts @ [channelFor env (length ts) p]) (calls @ [Verify (length ts)])"
  by (cases "verify env (length ts)") (simp_all add: channelFor_def)

lemma initLoop_eq:
  "\<forall>p\<in>set ps. complete p \<longrightarrow> createTransporter env p = None \<Longrightarrow>
   initLoop env ps ts calls =
     (None,
      ts @ map (\<lambda>(i, p). channelFor env i p)
             (zip [length ts..<length ts + length (filter complete ps)] (filter complete ps)),
      calls @ map Verify [length ts..<length ts + length (filter complete ps)])"
proof (induction ps arbitrary: ts calls)
  case Nil
  show ?case by simp
next
  case (Cons p ps)
  then have rest: "\<forall>q\<in>set ps. complete q \<longrightarrow> createTransporter env q = None"
    by simp
  show ?case
  proof (cases "complete p")
    case True
    with Cons.prems have made: "createTransporter env p = None"
      by simp
    have upt: "\<And>n k. [n..<Suc (n + k)] = n # [Suc n..<Suc (n + k)]"
      by (simp add: upt_conv_Cons)
    from True show ?thesis
      by (simp only: initLoop_step[OF True made] Cons.IH[OF rest]) (simp add: upt del: upt_Suc)
  next
    case False
    then show ?thesis by (simp add: Cons.IH[OF rest])
  qed
qed

lemma initLoop_calls_Verify:
  "initLoop env ps ts calls = (r, ts', calls') \<Longrightarrow> SendMail i \<notin> set calls \<Longrightarrow>
   SendMail i \<notin> set calls'"
proof (induction ps arbitrary: ts calls)
  case Nil
  then show ?case by simp
next
  case (Cons p ps)
  show ?case
  proof (cases "complete p")
    case False
    with Cons show ?thesis by simp
  next
    case True
    show ?thesis
    proof (cases "createTransporter env p")
      case (Some error)
      with True Cons.prems show ?thesis by simp
    next
      case None
      have "SendMail i \<notin> set (calls @ [Verify (length ts)])"
        using Cons.prems(2) by simp
      with True None Cons.prems(1) Cons.IH show ?thesis
        by (cases "verify env (length ts)") auto
    qed
  qed
qed

lemma initialize_calls_Verify:
  "initialize env s = (r, s1, calls) \<Longrightarrow> SendMail i \<notin> set calls"
proof (cases "isInitialized s")
  case True
  assume "initialize env s = (r, s1, calls)"
  with True show ?thesis by (simp add: initialize_def)
next
  case False
  assume run: "initialize env s = (r, s1, calls)"
  obtain r0 ts calls0 where loop: "initLoop env (providers env) [] [] = (r0, ts, calls0)"
    by (cases "initLoop env (providers env) [] []") auto
  from initLoop_calls_Verify[OF loop] have "SendMail i \<notin> set calls0"
    by simp
  moreover from run False loop have "calls = calls0"
    by (auto simp: initialize_def split: option.splits if_splits)
  ultimately show ?thesis by simp
qed


text \<open>
  Where \<^verbatim>\<open>nodemailer.createTransporter\<close> returns a transport for every provider with
  host, user and password, as the mock of the unit tests does, initialization of a
  mailer not yet initialized keeps exactly those providers, in configuration order.
  Each becomes a channel with its handshake's outcome, a failed handshake does not fail
  the initialization, and the initialization throws
  \<^verbatim>\<open>No email providers configured\<close> if and only if no channel was configured.
\<close>

lemma initialize_with_transport:
  assumes "\<not> isInitialized s" and "initialize env s = (r, s1, calls)"
    and "\<forall>p\<in>set (providers env). complete p \<longrightarrow> createTransporter env p = None"
  shows "map transporter (transporters s1) = filter complete (providers env) \<and>
         (\<forall>i < length (transporters s1).
            name (transporters s1 ! i) = p_name (filter complete (providers env) ! i) \<and>
            emailsSent (transporters s1 ! i) = 0 \<and>
            (verify env i = None \<longrightarrow>
               isHealthy (transporters s1 ! i) \<and> lastError (transporters s1 ! i) = None) \<and>
            (\<forall>e. verify env i = Some e \<longrightarrow>
               \<not> isHealthy (transporters s1 ! i) \<and>
               lastError (transporters s1 ! i) = Some (message e))) \<and>
         calls = map Verify [0..<length (transporters s1)] \<and>
         (r = Inl (Error ''No email providers configured'') \<longleftrightarrow> transporters s1 = []) \<and>
         (r = Inr () \<longleftrightarrow> transporters s1 \<noteq> []) \<and>
         isInitialized s1 = (transporters s1 \<noteq> [])"
proof -
  let ?cs = "filter complete (providers env)"
  let ?ts = "map (\<lambda>(i, p). channelFor env i p) (zip [0..<length ?cs] ?cs)"
  have loop: "initLoop env (providers env) [] [] = (None, ?ts, map Verify [0..<length ?cs])"
    using assms(3) by (simp add: initLoop_eq)
  have len: "length ?ts = length ?cs" by simp
  have tr: "map transporter ?ts = ?cs"
    by (rule nth_equalityI) (simp_all add: channelFor_def)
  have nth: "\<And>i. i < length ?cs \<Longrightarrow> ?ts ! i = channelFor env i (?cs ! i)"
    by simp
  show ?thesis
  proof (cases "?cs = []")
    case True
    with assms loop show ?thesis
      by (auto simp: initialize_def)
  next
    case False
    with assms loop have "r = Inr ()"
      and "s1 = s\<lparr>transporters := ?ts, isInitialized := True\<rparr>"
      and "calls = map Verify [0..<length ?cs]"
      by (simp_all add: initialize_def)
    with False tr nth len show ?thesis
      by (auto simp: channelFor_def)
  qed
qed

lemma initialize_with_transport_example:
  "initialize partial_env fresh_mailer =
     (Inr (),
      \<lparr>transporters =
         [demo_channel ''primary'',
          (demo_channel ''tertiary'')\<lparr>isHealthy := False, lastError := Some ''Connection timeout''\<rparr>],
       isInitialized = True\<rparr>,
      [Verify 0, Verify 1]) \<and>
   filter complete (providers partial_env) = [demo_provider ''primary'', demo_provider ''tertiary'']"
  by (simp add: initialize_def fresh_mailer_def partial_env_def complete_def demo_provider_def
      demo_channel_def timeout_error_def)

text \<open>
  Claim C9. Each provider with complete credentials is to become a channel, healthy or
  unhealthy by its handshake, and initialization is to fail only when no provider is
  configured. With the nodemailer package, which has no \<^verbatim>\<open>createTransporter\<close>, the
  call at the first complete provider throws; the outer \<^verbatim>\<open>catch\<close> rethrows, so
  initialization fails although three complete providers are configured: no handshake
  is issued and no channel is recorded.
\<close>

theorem initialize_createTransporter_throws:
  "initialize package_env fresh_mailer = (Inl createTransporter_TypeError, fresh_mailer, []) \<and>
   complete (demo_provider ''primary'')"
  by (simp add: initialize_def package_env_def fresh_mailer_def complete_def demo_provider_def)

section \<open>Properties of the send loop\<close>

lemma attempts_subset: "set (attempts env m is) \<subseteq> set is"
  by (induction "is") (auto split: sum.splits)

lemma sendLoop_calls:
  "snd (snd (sendLoop env m is ts le calls)) = calls @ map SendMail (attempts env m is)"
  by (induction "is" arbitrary: ts le calls) (auto split: sum.splits)

lemma sendLoop_length:
  "length (fst (snd (sendLoop env m is ts le calls))) = length ts"
  by (induction "is" arbitrary: ts le calls) (auto split: sum.splits)

lemma sendLoop_untouched:
  "j \<notin> set (attempts env m is) \<Longrightarrow> fst (snd (sendLoop env m is ts le calls)) ! j = ts ! j"
  by (induction "is" arbitrary: ts le calls) (auto split: sum.splits)

lemma sendLoop_failed:
  assumes "distinct is" and "\<forall>i\<in>set is. i < length ts"
    and "j \<in> set (attempts env m is)" and "sendWithTransporter env j m = Inl e"
  shows "fst (snd (sendLoop env m is ts le calls)) ! j = markFailure e (ts ! j)"
  using assms
proof (induction "is" arbitrary: ts le calls)
  case Nil
  then show ?case by simp
next
  case (Cons i rest)
  show ?case
  proof (cases "j = i")
    case True
    with Cons.prems have "j \<notin> set (attempts env m rest)"
      using attempts_subset[of env m rest] by auto
    with True Cons.prems show ?thesis
      by (simp add: sendLoop_untouched)
  next
    case False
    with Cons.prems obtain e' where e': "sendWithTransporter env i m = Inl e'"
      and j: "j \<in> set (attempts env m rest)"
      by (auto split: sum.splits)
    from Cons.prems have "distinct rest"
      and "\<forall>k\<in>set rest. k < length (ts[i := markFailure e' (ts ! i)])"
      by simp_all
    from Cons.IH[OF this j Cons.prems(4)] False e' show ?thesis
      by simp
  qed
qed

lemma sendLoop_succeeded:
  assumes "distinct is" and "\<forall>i\<in>set is. i < length ts"
    and "j \<in> set (attempts env m is)" and "sendWithTransporter env j m = Inr r"
  shows "fst (sendLoop env m is ts le calls) =
           Inr \<lparr>success = True, messageId = info_messageId r,
                 provider_used = name (ts ! j), response = info_response r\<rparr> \<and>
         fst (snd (sendLoop env m is ts le calls)) ! j =
           (ts ! j)\<lparr>emailsSent := emailsSent (ts ! j) + 1\<rparr>"
  using assms
proof (induction "is" arbitrary: ts le calls)
  case Nil
  then show ?case by simp
next
  case (Cons i rest)
  show ?case
  proof (cases "j = i")
    case True
    with Cons.prems show ?thesis by simp
  next
    case False
    with Cons.prems obtain e' where e': "sendWithTransporter env i m = Inl e'"
      and j: "j \<in> set (attempts env m rest)"
      by (auto split: sum.splits)
    let ?ts = "ts[i := markFailure e' (ts ! i)]"
    from Cons.prems have d: "distinct rest" and b: "\<forall>k\<in>set rest. k < length ?ts"
      by simp_all
    have same: "?ts ! j = ts ! j" using False by simp
    from Cons.IH[OF d b j Cons.prems(4), of "Some e'" "calls @ [SendMail i]"] e'
    show ?thesis by (simp only: sendLoop.simps sum.case same) 
  qed
qed

lemma attempts_all_fail:
  "\<forall>i\<in>set is. \<exists>e. sendWithTransporter env i m = Inl e \<Longrightarrow> attempts env m is = is"
  by (induction "is") auto

lemma sendLoop_all_fail:
  assumes "\<forall>i\<in>set is. \<exists>e. sendWithTransporter env i m = Inl e"
    and "is \<noteq> []" and "sendWithTransporter env (last is) m = Inl e"
  shows "fst (sendLoop env m is ts le calls) =
           Inl (Error (''Failed to send email with all providers. Last error: '' @ message e))"
  using assms
proof (induction "is" arbitrary: ts le calls)
  case Nil
  then show ?case by simp
next
  case (Cons i rest)
  then obtain e' where e': "sendWithTransporter env i m = Inl e'" by auto
  show ?case
  proof (cases "rest = []")
    case True
    with Cons.prems e' show ?thesis by simp
  next
    case False
    with Cons.prems have "sendWithTransporter env (last rest) m = Inl e"
      and "\<forall>k\<in>set rest. \<exists>e. sendWithTransporter env k m = Inl e"
      by simp_all
    from Cons.IH[OF this(2) False this(1)] e' show ?thesis by simp
  qed
qed

lemma attempts_next:
  assumes "distinct (pre @ i # j # post)"
    and "i \<in> set (attempts env m (pre @ i # j # post))"
    and "sendWithTransporter env i m = Inl e"
  shows "j \<in> set (attempts env m (pre @ i # j # post))"
  using assms
proof (induction pre)
  case Nil
  then show ?case by (simp split: sum.splits)
next
  case (Cons p pre)
  then show ?case by (auto split: sum.splits)
qed

lemma healthyTransporters_distinct: "distinct (healthyTransporters ts)"
  by (simp add: healthyTransporters_def)

lemma healthyTransporters_bound: "\<forall>i\<in>set (healthyTransporters ts). i < length ts \<and> isHealthy (ts ! i)"
  by (simp add: healthyTransporters_def)

lemma healthyTransporters_empty:
  "healthyTransporters ts = [] \<longleftrightarrow> (\<forall>t\<in>set ts. \<not> isHealthy t)"
proof
  assume "healthyTransporters ts = []"
  then have "\<forall>i<length ts. \<not> isHealthy (ts ! i)"
    by (simp add: healthyTransporters_def filter_empty_conv)
  then show "\<forall>t\<in>set ts. \<not> isHealthy t"
    by (auto simp: in_set_conv_nth)
next
  assume "\<forall>t\<in>set ts. \<not> isHealthy t"
  then show "healthyTransporters ts = []"
    by (simp add: healthyTransporters_def filter_empty_conv)
qed

lemma sendEmail_loop:
  assumes "initialize env s = (Inr (), s1, calls)" and "validateEmailData m = None"
    and "healthyTransporters (transporters s1) \<noteq> []"
  shows "sendEmail env s m =
           (fst (sendLoop env m (healthyTransporters (transporters s1)) (transporters s1) None calls),
            s1\<lparr>transporters :=
                 fst (snd (sendLoop env m (healthyTransporters (transporters s1))
                             (transporters s1) None calls))\<rparr>,
            calls @ map SendMail (attempts env m (healthyTransporters (transporters s1))))"
proof (cases "sendLoop env m (healthyTransporters (transporters s1)) (transporters s1) None calls")
  case (fields r ts calls')
  with sendLoop_calls[of env m "healthyTransporters (transporters s1)" "transporters s1" None calls]
  have "calls' = calls @ map SendMail (attempts env m (healthyTransporters (transporters s1)))"
    by simp
  with fields assms show ?thesis
    by (simp add: sendEmail_def)
qed

lemma isPersistentError_iff:
  "isPersistentError e \<longleftrightarrow> authenticationFailure e \<or> malformedEnvelope e \<or> malformedMessage e"
  by (auto simp: isPersistentError_def authenticationFailure_def malformedEnvelope_def
      malformedMessage_def)

section \<open>Validation\<close>




text \<open>
  Claim C10, as the code has it. A message whose recipient is the empty array, with a
  subject, at least one body, and a sender that is absent, empty or well-formed, passes
  validation: the presence check accepts the empty array and there is no address to
  check. The message reaches the send loop with no recipient, and the first healthy
  channel is attempted.
\<close>

theorem validate_empty_list:
  assumes "to_addr m = Some (Many [])"
    and "truthy (subject m)"
    and "truthy (text_body m) \<or> truthy (html_body m)"
    and "from_addr m = None \<or> (\<exists>f. from_addr m = Some f \<and> (f = [] \<or> isValidEmail f))"
  shows "validateEmailData m = None \<and> recipients (to_addr m) = [] \<and>
         (\<forall>env s s1 calls.
            initialize env s = (Inr (), s1, calls) \<and>
            healthyTransporters (transporters s1) \<noteq> [] \<longrightarrow>
            snd (snd (sendEmail env s m)) =
              calls @ map SendMail (attempts env m (healthyTransporters (transporters s1))) \<and>
            SendMail (hd (healthyTransporters (transporters s1))) \<in> set (snd (snd (sendEmail env s m))))"
proof -
  have valid: "validateEmailData m = None"
    using assms by (auto simp: validateEmailData_def)
  have hd_att: "hd xs \<in> set (attempts env m xs)" if "xs \<noteq> []" for env xs
    using that by (cases xs) (auto split: sum.splits)
  show ?thesis
    using valid sendEmail_loop[OF _ valid] hd_att assms(1) by auto
qed

theorem validate_empty_list_witness:
  "validateEmailData (demo_message\<lparr>to_addr := Some (Many [])\<rparr>) = None \<and>
   SendMail 0 \<in> set (snd (snd (sendEmail demo_env demo_mailer
                                  (demo_message\<lparr>to_addr := Some (Many [])\<rparr>))))"
proof -
  let ?m = "demo_message\<lparr>to_addr := Some (Many [])\<rparr>"
  have init: "initialize demo_env demo_mailer = (Inr (), demo_mailer, [])"
    by (simp add: initialize_def demo_mailer_def)
  have hs: "healthyTransporters (transporters demo_mailer) = [0, 1, 2]"
    by (simp add: healthyTransporters_def demo_mailer_def demo_channel_def)
  have sender: "isValidEmail ''sender@test.com''"
    by code_simp
  have facts: "to_addr ?m = Some (Many [])" "truthy (subject ?m)"
    "truthy (text_body ?m) \<or> truthy (html_body ?m)"
    "from_addr ?m = None \<or> (\<exists>f. from_addr ?m = Some f \<and> (f = [] \<or> isValidEmail f))"
    using sender by (simp_all add: demo_message_def)
  from validate_empty_list[OF facts] init hs show ?thesis
    by fastforce
qed

text \<open>
  The sender check still applies to such a message: with an empty recipient array, a
  subject and a body, a malformed sender is rejected.
\<close>

theorem validate_empty_list_bad_sender:
  "to_addr bad_sender_message = Some (Many []) \<and>
   truthy (subject bad_sender_message) \<and>
   truthy (text_body bad_sender_message) \<and>
   validateEmailData bad_sender_message = Some (Error ''Invalid sender email: not-an-address'')"
  by code_simp

section \<open>Failover\<close>

text \<open>
  Claim C1. A mailer holds three channels, all healthy; the message is valid; the send
  on the first channel throws a persistent error and the send on the second resolves.
  Then \<^verbatim>\<open>sendEmail\<close> returns a success result carrying the second channel's name and
  the transport's message identifier; afterwards the first channel is unhealthy with
  the error's message as its \<^verbatim>\<open>lastError\<close>, the second channel's
  \<^verbatim>\<open>emailsSent\<close> is one higher, the third channel is as before, and the only sends
  issued are those on channels 0 and 1: channel 2 is never attempted. A following
  \<^verbatim>\<open>getStats\<close> shows the same.
\<close>

theorem sendEmail_failover:
  assumes "initialize env s = (Inr (), s1, calls)"
    and "transporters s1 = [c1, c2, c3]"
    and "isHealthy c1" and "isHealthy c2" and "isHealthy c3"
    and "validateEmailData m = None"
    and "sendWithTransporter env 0 m = Inl e" and "isPersistentError e"
    and "sendWithTransporter env 1 m = Inr r"
  shows "sendEmail env s m =
           (Inr \<lparr>success = True, messageId = info_messageId r, provider_used = name c2,
                  response = info_response r\<rparr>,
            s1\<lparr>transporters :=
                 [c1\<lparr>isHealthy := False, lastError := Some (message e)\<rparr>,
                  c2\<lparr>emailsSent := emailsSent c2 + 1\<rparr>, c3]\<rparr>,
            calls @ [SendMail 0, SendMail 1]) \<and>
         SendMail 2 \<notin> set (calls @ [SendMail 0, SendMail 1]) \<and>
         st_providers (getStats (fst (snd (sendEmail env s m)))) =
           [\<lparr>st_name = name c1, st_isHealthy = False, st_emailsSent = emailsSent c1,
             st_lastError = Some (message e)\<rparr>,
            \<lparr>st_name = name c2, st_isHealthy = True, st_emailsSent = emailsSent c2 + 1,
             st_lastError = lastError c2\<rparr>,
            \<lparr>st_name = name c3, st_isHealthy = True, st_emailsSent = emailsSent c3,
             st_lastError = lastError c3\<rparr>]"
proof -
  have hs: "healthyTransporters (transporters s1) = [0, 1, 2]"
    using assms(2-5) by (simp add: healthyTransporters_def)
  have "SendMail 2 \<notin> set calls"
    using assms(1) by (rule initialize_calls_Verify)
  moreover have "sendEmail env s m =
           (Inr \<lparr>success = True, messageId = info_messageId r, provider_used = name c2,
                  response = info_response r\<rparr>,
            s1\<lparr>transporters :=
                 [c1\<lparr>isHealthy := False, lastError := Some (message e)\<rparr>,
                  c2\<lparr>emailsSent := emailsSent c2 + 1\<rparr>, c3]\<rparr>,
            calls @ [SendMail 0, SendMail 1])"
    using assms hs by (simp add: sendEmail_def markFailure_def)
  ultimately show ?thesis
    using assms(3-5) by (simp add: getStats_def)
qed

theorem sendEmail_failover_witness:
  "sendEmail demo_env demo_mailer demo_message =
     (Inr \<lparr>success = True, messageId = ''test-message-id'', provider_used = ''secondary'',
            response = ''Email sent successfully''\<rparr>,
      \<lparr>transporters =
         [(demo_channel ''primary'')\<lparr>isHealthy := False, lastError := Some ''Invalid login''\<rparr>,
          (demo_channel ''secondary'')\<lparr>emailsSent := 1\<rparr>,
          demo_channel ''tertiary''],
       isInitialized = True\<rparr>,
      [SendMail 0, SendMail 1])"
proof -
  have init: "initialize demo_env demo_mailer = (Inr (), demo_mailer, [])"
    by (simp add: initialize_def demo_mailer_def)
  have ts: "transporters demo_mailer =
      [demo_channel ''primary'', demo_channel ''secondary'', demo_channel ''tertiary'']"
    by (simp add: demo_mailer_def)
  have h: "isHealthy (demo_channel n)" for n
    by (simp add: demo_channel_def)
  have valid: "validateEmailData demo_message = None"
    by code_simp
  have s0: "sendWithTransporter demo_env 0 demo_message = Inl auth_error"
    by (simp add: sendWithTransporter_def demo_env_def)
  have p: "isPersistentError auth_error"
    by code_simp
  have s1: "sendWithTransporter demo_env 1 demo_message = Inr demo_info"
    by (simp add: sendWithTransporter_def demo_env_def)
  from sendEmail_failover[OF init ts h h h valid s0 p s1] show ?thesis
    by (simp add: demo_mailer_def auth_error_def demo_info_def demo_channel_def)
qed

text \<open>
  Claim C3. The message is valid and every channel is marked unhealthy when the filter
  runs. Then the filter yields the empty list, \<^verbatim>\<open>sendEmail\<close> throws
  \<^verbatim>\<open>No healthy email providers available\<close>, the channels are left as they are, and
  no send is issued on any channel.
\<close>

theorem sendEmail_no_healthy:
  assumes "initialize env s = (Inr (), s1, calls)"
    and "validateEmailData m = None"
    and "\<forall>t\<in>set (transporters s1). \<not> isHealthy t"
  shows "healthyTransporters (transporters s1) = [] \<and>
         sendEmail env s m = (Inl (Error ''No healthy email providers available''), s1, calls) \<and>
         (\<forall>i. SendMail i \<notin> set calls)"
proof -
  have "healthyTransporters (transporters s1) = []"
    using assms(3) by (simp add: healthyTransporters_empty)
  moreover from this assms(1,2) have
    "sendEmail env s m = (Inl (Error ''No healthy email providers available''), s1, calls)"
    by (simp add: sendEmail_def)
  moreover have "\<forall>i. SendMail i \<notin> set calls"
    using assms(1) by (blast dest: initialize_calls_Verify)
  ultimately show ?thesis by simp
qed

theorem sendEmail_no_healthy_witness:
  "sendEmail demo_env down_mailer demo_message =
     (Inl (Error ''No healthy email providers available''), down_mailer, [])"
proof -
  have init: "initialize demo_env down_mailer = (Inr (), down_mailer, [])"
    by (simp add: initialize_def down_mailer_def)
  have valid: "validateEmailData demo_message = None"
    by code_simp
  have down: "\<forall>t\<in>set (transporters down_mailer). \<not> isHealthy t"
    by (simp add: down_mailer_def)
  from sendEmail_no_healthy[OF init valid down] show ?thesis
    by simp
qed

text \<open>
  Claim C4. Take any send attempt of \<^verbatim>\<open>sendEmail\<close> that throws, on channel \<open>i\<close>
  with error \<open>e\<close>. If \<open>e\<close> is an authentication failure, a malformed-envelope error
  or a malformed-message error, it is classified persistent and channel \<open>i\<close> ends
  unhealthy with the message of \<open>e\<close> as \<^verbatim>\<open>lastError\<close>. For every other error the
  channel is left exactly as it was. In both cases the loop goes on: the healthy
  channel that follows \<open>i\<close>, if there is one, is attempted too.
\<close>

theorem sendEmail_failure_classification:
  assumes "initialize env s = (Inr (), s1, calls)"
    and "validateEmailData m = None"
    and "sendEmail env s m = (res, s2, calls2)"
    and "SendMail i \<in> set calls2"
    and "sendWithTransporter env i m = Inl e"
  shows "(authenticationFailure e \<or> malformedEnvelope e \<or> malformedMessage e \<longrightarrow>
            isPersistentError e \<and> \<not> isHealthy (transporters s2 ! i) \<and>
            lastError (transporters s2 ! i) = Some (message e)) \<and>
         (\<not> (authenticationFailure e \<or> malformedEnvelope e \<or> malformedMessage e) \<longrightarrow>
            \<not> isPersistentError e \<and> transporters s2 ! i = transporters s1 ! i) \<and>
         (\<forall>pre j post. healthyTransporters (transporters s1) = pre @ i # j # post \<longrightarrow>
            SendMail j \<in> set calls2)"
proof -
  let ?hs = "healthyTransporters (transporters s1)"
  have noSend: "SendMail i \<notin> set calls"
    using assms(1) by (rule initialize_calls_Verify)
  have ne: "?hs \<noteq> []"
  proof
    assume "?hs = []"
    with assms(1,2,3) have "calls2 = calls" by (simp add: sendEmail_def)
    with assms(4) noSend show False by simp
  qed
  note loop = sendEmail_loop[OF assms(1,2) ne]
  from loop assms(3) have calls2: "calls2 = calls @ map SendMail (attempts env m ?hs)"
    and s2: "transporters s2 = fst (snd (sendLoop env m ?hs (transporters s1) None calls))"
    by auto
  from calls2 assms(4) noSend have att: "i \<in> set (attempts env m ?hs)" by auto
  have bound: "\<forall>k\<in>set ?hs. k < length (transporters s1)"
    using healthyTransporters_bound by blast
  have upd: "transporters s2 ! i = markFailure e (transporters s1 ! i)"
    unfolding s2
    by (rule sendLoop_failed[OF healthyTransporters_distinct bound att assms(5)])
  have next_one: "\<forall>pre j post. ?hs = pre @ i # j # post \<longrightarrow> SendMail j \<in> set calls2"
  proof (intro allI impI)
    fix pre j post
    assume split: "?hs = pre @ i # j # post"
    have "distinct (pre @ i # j # post)"
      using healthyTransporters_distinct[of "transporters s1"] split by simp
    from attempts_next[OF this _ assms(5)] att split
    have "j \<in> set (attempts env m ?hs)" by simp
    with calls2 show "SendMail j \<in> set calls2" by simp
  qed
  from upd next_one show ?thesis
    by (simp add: isPersistentError_iff[symmetric] markFailure_def)
qed

theorem sendEmail_failure_classification_witness:
  "\<not> isHealthy (transporters (fst (snd (sendEmail failing_env demo_mailer demo_message))) ! 0) \<and>
   lastError (transporters (fst (snd (sendEmail failing_env demo_mailer demo_message))) ! 0) =
     Some ''Invalid login'' \<and>
   transporters (fst (snd (sendEmail failing_env demo_mailer demo_message))) ! 1 =
     demo_channel ''secondary'' \<and>
   SendMail 1 \<in> set (snd (snd (sendEmail failing_env demo_mailer demo_message))) \<and>
   SendMail 2 \<in> set (snd (snd (sendEmail failing_env demo_mailer demo_message)))"
proof -
  let ?r = "sendEmail failing_env demo_mailer demo_message"
  have init: "initialize failing_env demo_mailer = (Inr (), demo_mailer, [])"
    by (simp add: initialize_def demo_mailer_def)
  have valid: "validateEmailData demo_message = None"
    by code_simp
  have run: "?r = (fst ?r, fst (snd ?r), snd (snd ?r))"
    by simp
  have hs: "healthyTransporters (transporters demo_mailer) = [0, 1, 2]"
    by (simp add: healthyTransporters_def demo_mailer_def demo_channel_def)
  have ne: "healthyTransporters (transporters demo_mailer) \<noteq> []"
    by (simp add: hs)
  have calls: "snd (snd ?r) = [SendMail 0, SendMail 1, SendMail 2]"
    using sendEmail_loop[OF init valid ne]
    by (simp add: hs sendWithTransporter_def failing_env_def)
  have a0: "SendMail 0 \<in> set (snd (snd ?r))" and a1: "SendMail 1 \<in> set (snd (snd ?r))"
    by (simp_all add: calls)
  have s0: "sendWithTransporter failing_env 0 demo_message = Inl auth_error"
    and s1: "sendWithTransporter failing_env 1 demo_message = Inl timeout_error"
    by (simp_all add: sendWithTransporter_def failing_env_def)
  have auth: "authenticationFailure auth_error"
    by (simp add: authenticationFailure_def auth_error_def)
  have other: "\<not> (authenticationFailure timeout_error \<or> malformedEnvelope timeout_error \<or>
                  malformedMessage timeout_error)"
    by code_simp
  have split0: "healthyTransporters (transporters demo_mailer) = [] @ 0 # 1 # [2]"
    and split1: "healthyTransporters (transporters demo_mailer) = [0] @ 1 # 2 # []"
    by (simp_all add: hs)
  from sendEmail_failure_classification[OF init valid run a0 s0] auth split0
  have c0: "\<not> isHealthy (transporters (fst (snd ?r)) ! 0)"
    "lastError (transporters (fst (snd ?r)) ! 0) = Some (message auth_error)"
    "SendMail 1 \<in> set (snd (snd ?r))"
    by blast+
  from sendEmail_failure_classification[OF init valid run a1 s1] other split1
  have c1: "transporters (fst (snd ?r)) ! 1 = transporters demo_mailer ! 1"
    "SendMail 2 \<in> set (snd (snd ?r))"
    by blast+
  from c0 c1 show ?thesis
    by (simp add: auth_error_def demo_mailer_def)
qed

text \<open>
  Claim C5. The message is valid, some channel is healthy, and the send on every
  healthy channel throws. Then \<^verbatim>\<open>sendEmail\<close> throws the aggregate error whose
  message ends with the message of the error thrown by the last healthy channel, after
  one send on each healthy channel in order.
\<close>

theorem sendEmail_exhausted:
  assumes "initialize env s = (Inr (), s1, calls)"
    and "validateEmailData m = None"
    and "\<exists>t\<in>set (transporters s1). isHealthy t"
    and "\<forall>i\<in>set (healthyTransporters (transporters s1)). \<exists>e. sendWithTransporter env i m = Inl e"
    and "sendWithTransporter env (last (healthyTransporters (transporters s1))) m = Inl e"
  shows "fst (sendEmail env s m) =
           Inl (Error (''Failed to send email with all providers. Last error: '' @ message e)) \<and>
         snd (snd (sendEmail env s m)) =
           calls @ map SendMail (healthyTransporters (transporters s1))"
proof -
  have ne: "healthyTransporters (transporters s1) \<noteq> []"
    using assms(3) by (simp add: healthyTransporters_empty)
  show ?thesis
    using sendEmail_loop[OF assms(1,2) ne] sendLoop_all_fail[OF assms(4) ne assms(5)]
      attempts_all_fail[OF assms(4)]
    by simp
qed

theorem sendEmail_exhausted_witness:
  "fst (sendEmail failing_env demo_mailer demo_message) =
     Inl (Error ''Failed to send email with all providers. Last error: Connection timeout'') \<and>
   snd (snd (sendEmail failing_env demo_mailer demo_message)) =
     [SendMail 0, SendMail 1, SendMail 2]"
proof -
  have init: "initialize failing_env demo_mailer = (Inr (), demo_mailer, [])"
    by (simp add: initialize_def demo_mailer_def)
  have valid: "validateEmailData demo_message = None"
    by code_simp
  have hs: "healthyTransporters (transporters demo_mailer) = [0, 1, 2]"
    by (simp add: healthyTransporters_def demo_mailer_def demo_channel_def)
  have some: "\<exists>t\<in>set (transporters demo_mailer). isHealthy t"
    by (simp add: demo_mailer_def demo_channel_def)
  have fails: "\<forall>i\<in>set (healthyTransporters (transporters demo_mailer)).
      \<exists>e. sendWithTransporter failing_env i demo_message = Inl e"
    by (simp add: hs sendWithTransporter_def failing_env_def)
  have lst: "sendWithTransporter failing_env
      (last (healthyTransporters (transporters demo_mailer))) demo_message = Inl timeout_error"
    by (simp add: hs sendWithTransporter_def failing_env_def)
  from sendEmail_exhausted[OF init valid some fails lst] show ?thesis
    by (simp add: hs timeout_error_def)
qed

section \<open>Health check\<close>

lemma healthLoop_step:
  "healthLoop env (i # rest) ts status calls =
     healthLoop env rest (ts[i := checked env i (ts ! i)])
       (status @ [statusOf env i (ts ! i)]) (calls @ [Verify i])"
  by (cases "verify env i") (simp_all add: checked_def statusOf_def)

lemma healthLoop_calls:
  "snd (snd (healthLoop env is ts status calls)) = calls @ map Verify is"
  by (induction "is" arbitrary: ts status calls) (simp_all add: healthLoop_step del: healthLoop.simps(2))

lemma healthLoop_length:
  "length (fst (healthLoop env is ts status calls)) = length ts"
  by (induction "is" arbitrary: ts status calls) (simp_all add: healthLoop_step del: healthLoop.simps(2))

lemma healthLoop_nth_out:
  "j \<notin> set is \<Longrightarrow> fst (healthLoop env is ts status calls) ! j = ts ! j"
  by (induction "is" arbitrary: ts status calls) (auto simp: healthLoop_step simp del: healthLoop.simps(2))

lemma healthLoop_nth_in:
  "distinct is \<Longrightarrow> j \<in> set is \<Longrightarrow> j < length ts \<Longrightarrow>
   fst (healthLoop env is ts status calls) ! j = checked env j (ts ! j)"
proof (induction "is" arbitrary: ts status calls)
  case Nil
  then show ?case by simp
next
  case (Cons i rest)
  show ?case
  proof (cases "j = i")
    case True
    with Cons.prems show ?thesis
      by (simp add: healthLoop_step healthLoop_nth_out del: healthLoop.simps(2))
  next
    case False
    with Cons.prems Cons.IH[of "ts[i := checked env i (ts ! i)]"] show ?thesis
      by (simp add: healthLoop_step del: healthLoop.simps(2))
  qed
qed

lemma healthLoop_status:
  "distinct is \<Longrightarrow>
   fst (snd (healthLoop env is ts status calls)) = status @ map (\<lambda>i. statusOf env i (ts ! i)) is"
proof (induction "is" arbitrary: ts status calls)
  case Nil
  then show ?case by simp
next
  case (Cons i rest)
  have "statusOf env k (ts[i := checked env i (ts ! i)] ! k) = statusOf env k (ts ! k)"
    if "k \<in> set rest" for k
  proof -
    from that Cons.prems have "i \<noteq> k" by auto
    then show ?thesis by simp
  qed
  then have "map (\<lambda>k. statusOf env k (ts[i := checked env i (ts ! i)] ! k)) rest =
             map (\<lambda>k. statusOf env k (ts ! k)) rest"
    by simp
  with Cons show ?case
    by (simp add: healthLoop_step del: healthLoop.simps(2))
qed

text \<open>
  Claim C6. \<^verbatim>\<open>healthCheck\<close> runs the handshake once on every channel, in order,
  whatever the channel's flag. A channel whose handshake succeeds ends healthy with no
  \<^verbatim>\<open>lastError\<close>, so a channel that was unhealthy is restored; a channel whose
  handshake fails ends unhealthy with the error's message. Names and counters are
  untouched, and the report holds one status entry per channel, at the channel's
  position, with the fresh values.
\<close>

theorem healthCheck_refresh:
  assumes "healthCheck env s = (report, s2, calls)"
  shows "calls = map Verify [0..<length (transporters s)] \<and>
         length (transporters s2) = length (transporters s) \<and>
         length (h_providers report) = length (transporters s) \<and>
         (\<forall>i<length (transporters s).
            name (transporters s2 ! i) = name (transporters s ! i) \<and>
            emailsSent (transporters s2 ! i) = emailsSent (transporters s ! i) \<and>
            (verify env i = None \<longrightarrow>
               isHealthy (transporters s2 ! i) \<and> lastError (transporters s2 ! i) = None \<and>
               h_providers report ! i =
                 \<lparr>h_name = name (transporters s ! i), h_isHealthy = True, h_lastError = None,
                  h_emailsSent = emailsSent (transporters s ! i)\<rparr>) \<and>
            (\<forall>e. verify env i = Some e \<longrightarrow>
               \<not> isHealthy (transporters s2 ! i) \<and>
               lastError (transporters s2 ! i) = Some (message e) \<and>
               h_providers report ! i =
                 \<lparr>h_name = name (transporters s ! i), h_isHealthy = False,
                  h_lastError = Some (message e),
                  h_emailsSent = emailsSent (transporters s ! i)\<rparr>))"
proof -
  let ?n = "length (transporters s)"
  let ?run = "healthLoop env [0..<?n] (transporters s) [] []"
  from assms have c: "calls = snd (snd ?run)" and t: "transporters s2 = fst ?run"
    and r: "h_providers report = fst (snd ?run)"
    by (auto simp: healthCheck_def split: prod.splits)
  have calls: "calls = map Verify [0..<?n]"
    by (simp add: c healthLoop_calls)
  have len: "length (transporters s2) = ?n"
    by (simp add: t healthLoop_length)
  have st: "h_providers report = map (\<lambda>i. statusOf env i (transporters s ! i)) [0..<?n]"
    by (simp add: r healthLoop_status)
  have nth: "transporters s2 ! i = checked env i (transporters s ! i)" if "i < ?n" for i
    using that by (simp add: t healthLoop_nth_in)
  have each: "name (transporters s2 ! i) = name (transporters s ! i) \<and>
            emailsSent (transporters s2 ! i) = emailsSent (transporters s ! i) \<and>
            (verify env i = None \<longrightarrow>
               isHealthy (transporters s2 ! i) \<and> lastError (transporters s2 ! i) = None \<and>
               h_providers report ! i =
                 \<lparr>h_name = name (transporters s ! i), h_isHealthy = True, h_lastError = None,
                  h_emailsSent = emailsSent (transporters s ! i)\<rparr>) \<and>
            (\<forall>e. verify env i = Some e \<longrightarrow>
               \<not> isHealthy (transporters s2 ! i) \<and>
               lastError (transporters s2 ! i) = Some (message e) \<and>
               h_providers report ! i =
                 \<lparr>h_name = name (transporters s ! i), h_isHealthy = False,
                  h_lastError = Some (message e),
                  h_emailsSent = emailsSent (transporters s ! i)\<rparr>)" if "i < ?n" for i
    using that by (cases "verify env i") (simp_all add: nth st checked_def statusOf_def)
  from calls len st each show ?thesis
    by simp
qed

theorem healthCheck_refresh_witness:
  "healthCheck partial_env mixed_mailer =
     (\<lparr>overall = True,
       h_providers =
         [\<lparr>h_name = ''primary'', h_isHealthy = True, h_lastError = None, h_emailsSent = 0\<rparr>,
          \<lparr>h_name = ''secondary'', h_isHealthy = False,
           h_lastError = Some ''Connection timeout'', h_emailsSent = 7\<rparr>]\<rparr>,
      \<lparr>transporters =
         [demo_channel ''primary'',
          (demo_channel ''secondary'')
            \<lparr>isHealthy := False, lastError := Some ''Connection timeout'', emailsSent := 7\<rparr>],
       isInitialized = True\<rparr>,
      [Verify 0, Verify 1]) \<and>
   \<not> isHealthy (transporters mixed_mailer ! 0)"
proof -
  have run: "healthCheck partial_env mixed_mailer =
     (\<lparr>overall = True,
       h_providers =
         [\<lparr>h_name = ''primary'', h_isHealthy = True, h_lastError = None, h_emailsSent = 0\<rparr>,
          \<lparr>h_name = ''secondary'', h_isHealthy = False,
           h_lastError = Some ''Connection timeout'', h_emailsSent = 7\<rparr>]\<rparr>,
      \<lparr>transporters =
         [demo_channel ''primary'',
          (demo_channel ''secondary'')
            \<lparr>isHealthy := False, lastError := Some ''Connection timeout'', emailsSent := 7\<rparr>],
       isInitialized = True\<rparr>,
      [Verify 0, Verify 1])"
    by (simp add: healthCheck_def mixed_mailer_def partial_env_def demo_channel_def
        timeout_error_def upt_rec)
  from healthCheck_refresh[OF run] show ?thesis
    using run by (simp add: mixed_mailer_def)
qed

section \<open>Bulk sending\<close>










section \<open>Personalization\<close>

lemma matchesAt_Nil: "matchesAt [] s = True"
  by (simp add: matchesAt_def)

lemma matchesAt_Cons_Nil: "matchesAt (p # ps) [] = False"
  by (simp add: matchesAt_def)

lemma matchesAt_Cons:
  "matchesAt (p # ps) (c # cs) = (canonicalize p = canonicalize c \<and> matchesAt ps cs)"
  by (auto simp: matchesAt_def)

lemma canonicalize_brace: "canonicalize c = CHR ''{'' \<Longrightarrow> c = CHR ''{''"
proof (rule ccontr)
  assume eq: "canonicalize c = CHR ''{''" and ne: "c \<noteq> CHR ''{''"
  let ?n = "of_char c :: nat"
  from eq ne have range: "(97 \<le> ?n \<and> ?n \<le> 122) \<or> (224 \<le> ?n \<and> ?n \<le> 254 \<and> ?n \<noteq> 247)"
    and "char_of (?n - 32) = CHR ''{''"
    by (auto simp: canonicalize_def Let_def split: if_splits)
  then have "(of_char (char_of (?n - 32)) :: nat) = of_char CHR ''{''"
    by simp
  then have "(?n - 32) mod 256 = 123"
    by (simp add: of_char_of)
  with range show False
    by auto
qed

lemma canonicalize_ascii [simp]:
  "canonicalize CHR ''{'' = CHR ''{''"
  by (simp add: canonicalize_def)

lemma replaceLoop_Nil: "replaceLoop key replacement seen [] = []"
  by (subst replaceLoop.simps) simp

lemma replaceLoop_skip:
  "c \<noteq> CHR ''{'' \<Longrightarrow>
   replaceLoop key replacement seen (c # cs) = c # replaceLoop key replacement (seen @ [c]) cs"
proof -
  assume ne: "c \<noteq> CHR ''{''"
  have "\<not> matchesAt (placeholder key) (c # cs)"
    using ne by (auto simp: placeholder_def matchesAt_Cons dest: canonicalize_brace[OF sym])
  then show ?thesis
    by (subst replaceLoop.simps) simp
qed

lemma replaceLoop_miss:
  "\<not> matchesAt (placeholder key) (c # cs) \<Longrightarrow>
   replaceLoop key replacement seen (c # cs) = c # replaceLoop key replacement (seen @ [c]) cs"
  by (subst replaceLoop.simps) simp

lemma replaceLoop_hit:
  "matchesAt (placeholder key) (c # cs) \<Longrightarrow>
   replaceLoop key replacement seen (c # cs) =
     getSubstitution (take (length (placeholder key)) (c # cs)) seen
       (drop (length (placeholder key)) (c # cs)) replacement @
     replaceLoop key replacement (seen @ take (length (placeholder key)) (c # cs))
       (drop (length (placeholder key)) (c # cs))"
  by (subst replaceLoop.simps) (simp add: Let_def)

lemma replaceLoop_no_brace:
  "CHR ''{'' \<notin> set s \<Longrightarrow> replaceLoop key replacement seen s = s"
proof (induction s arbitrary: seen)
  case Nil
  show ?case by (simp add: replaceLoop_Nil)
next
  case (Cons c cs)
  then have "c \<noteq> CHR ''{''" and "CHR ''{'' \<notin> set cs"
    by auto
  with Cons.IH show ?case
    by (simp add: replaceLoop_skip)
qed

lemma replace_no_brace: "CHR ''{'' \<notin> set s \<Longrightarrow> replace s key replacement = s"
  by (simp add: replace_def replaceLoop_no_brace)

lemmas replace_eval =
  replace_def replaceLoop_Nil replaceLoop_skip replaceLoop_miss replaceLoop_hit
  matchesAt_Nil matchesAt_Cons_Nil matchesAt_Cons placeholder_def canonicalize_def Let_def

text \<open>
  The two cases of the unit tests: without a first name the placeholder becomes the
  default \<^verbatim>\<open>there\<close>, with the first name \<^verbatim>\<open>Ana\<close> it becomes that name.
\<close>

lemma createPersonalizedEmail_default:
  "createPersonalizedEmail hello_template no_prospect no_campaign =
     \<lparr>p_subject = ''Hello there'', p_text = ''Hi there from your company'', p_html = None\<rparr>"
  by (simp add: createPersonalizedEmail_def variables_def hello_template_def no_prospect_def
      no_campaign_def replace_eval)

lemma createPersonalizedEmail_value:
  "createPersonalizedEmail hello_template (no_prospect\<lparr>firstName := Some ''Ana''\<rparr>) no_campaign =
     \<lparr>p_subject = ''Hello Ana'', p_text = ''Hi Ana from your company'', p_html = None\<rparr>"
  by (simp add: createPersonalizedEmail_def variables_def hello_template_def no_prospect_def
      no_campaign_def replace_eval)

text \<open>
  Claim C8. A placeholder with a supplied value is to be replaced by that value. The
  code passes the value as the replacement string of \<^verbatim>\<open>String.prototype.replace\<close>,
  where a dollar sign is special. With the first name \<^verbatim>\<open>$&\<close> the placeholder is
  replaced by the matched text, that is, left as it was; in the company name
  \<^verbatim>\<open>Ca$$h Co\<close> the two dollar signs become one.
\<close>

theorem createPersonalizedEmail_dollar:
  "createPersonalizedEmail hello_template
     (no_prospect\<lparr>firstName := Some ''$&'', company := Some ''Ca$$h Co''\<rparr>) no_campaign =
     \<lparr>p_subject = ''Hello {{firstName}}'', p_text = ''Hi {{firstName}} from Ca$h Co'',
      p_html = None\<rparr>"
  by (simp add: createPersonalizedEmail_def variables_def hello_template_def no_prospect_def
      no_campaign_def replace_eval)

end
